theory Spec2Isabelle
  imports
    Complex_Main
    "HOL-Library.Char_ord"
    "HOL-Library.List_Lexorder"
    "HOL-Library.Sublist"
begin

section \<open>Strings\<close>

text \<open>
  Python \<open>str\<close> values and SQLite \<open>TEXT\<close> values are modelled as \<open>string\<close>, a list
  of byte-sized characters holding the UTF-8 text. The order \<open><\<close> on \<open>string\<close> (from
  \<open>Char_ord\<close> and \<open>List_Lexorder\<close>) is the byte-wise lexicographic order, which is how
  SQLite compares \<open>TEXT\<close> under the default \<open>BINARY\<close> collation.

  \<open>str.lower()\<close> is modelled on the ASCII letters; every other character is left as it is.
\<close>

definition lower_char :: "char \<Rightarrow> char" where
  "lower_char c =
     (case map_of (zip ''ABCDEFGHIJKLMNOPQRSTUVWXYZ'' ''abcdefghijklmnopqrstuvwxyz'') c of
        Some l \<Rightarrow> l
      | None \<Rightarrow> c)"

definition lower :: "string \<Rightarrow> string" where
  "lower s = map lower_char s"

text \<open>\<open>contains needle haystack\<close> is Python's \<open>needle in haystack\<close> on strings.\<close>

fun contains :: "string \<Rightarrow> string \<Rightarrow> bool" where
  "contains needle [] = (needle = [])"
| "contains needle (h # hs) = (prefix needle (h # hs) \<or> contains needle hs)"

section \<open>Data model (app/models)\<close>

type_synonym polygon = "real list list"

record warning_area =
  name :: string
  polygon :: polygon

record warning_info =
  warning_identifier :: string
  event :: string
  severity :: string
  urgency :: string
  certainty :: string
  effective :: string
  expires :: string
  headline :: string
  description :: string
  sender :: string
  infographic_url :: string
  areas :: "warning_area list"
  is_expired :: bool

text \<open>\<open>MonitoredLocation\<close>; the field \<open>id\<close> is named \<open>loc_id\<close> here.\<close>

record location =
  loc_id :: int
  label :: "string option"
  province_code :: string
  province_name :: string
  district_code :: string
  district_name :: string
  subdistrict_code :: string
  subdistrict_name :: string
  enabled :: bool

record match_result =
  location :: location
  match_type :: string
  matched_text :: string

section \<open>Matcher (app/engine/matcher.py)\<close>

definition word_boundary_match :: "string \<Rightarrow> string \<Rightarrow> bool" where
  "word_boundary_match needle haystack = contains needle haystack"

text \<open>
  The body of the \<open>for location in locations\<close> loop of \<open>match_locations\<close>, with the
  list \<open>results\<close> that it appends to passed along. A Python string is falsy exactly when
  it is empty.
\<close>

fun match_loop ::
  "string \<Rightarrow> string set \<Rightarrow> location list \<Rightarrow> match_result list \<Rightarrow> match_result list" where
  "match_loop description_lower area_names_lower [] results = results"
| "match_loop description_lower area_names_lower (loc # locations) results =
     (if \<not> enabled loc then match_loop description_lower area_names_lower locations results
      else
        let subdistrict = lower (subdistrict_name loc) in
        if subdistrict \<noteq> [] \<and> word_boundary_match subdistrict description_lower
        then match_loop description_lower area_names_lower locations
               (results @ [\<lparr>location = loc, match_type = ''kecamatan'',
                             matched_text = subdistrict_name loc\<rparr>])
        else
          let district = lower (district_name loc) in
          if district \<noteq> [] \<and> (\<exists>area_name \<in> area_names_lower. contains district area_name)
          then match_loop description_lower area_names_lower locations
                 (results @ [\<lparr>location = loc, match_type = ''kabupaten'',
                               matched_text = district_name loc\<rparr>])
          else match_loop description_lower area_names_lower locations results)"

definition match_locations :: "warning_info \<Rightarrow> location list \<Rightarrow> match_result list" where
  "match_locations warning locations =
     match_loop (lower (description warning))
       (set (map (\<lambda>area. lower (name area)) (areas warning))) locations []"

section \<open>Store (app/database.py and the tables the engine uses)\<close>

text \<open>
  A row of the \<open>alerts\<close> table (\<open>AlertRecord\<close>). Columns whose names are also fields
  of \<open>warning_info\<close> or \<open>match_result\<close> carry the prefix \<open>alert_\<close>; \<open>id\<close> is
  \<open>alert_id\<close>. The two columns that the engine's queries test and that the model declares
  nullable are options (\<open>None\<close> is SQL \<open>NULL\<close>). \<open>polygon_data\<close> holds the areas that
  \<open>json.dumps\<close> serialises. The columns \<open>expired_notified\<close> and \<open>created_at\<close>, which the
  engine neither writes nor reads, are left out.
\<close>

record alert =
  alert_id :: int
  bmkg_alert_code :: string
  alert_event :: string
  alert_severity :: string
  alert_urgency :: string
  alert_certainty :: string
  alert_headline :: string
  alert_description :: string
  alert_effective :: string
  alert_expires :: "string option"
  alert_infographic_url :: string
  polygon_data :: "warning_area list"
  matched_location_id :: "int option"
  alert_match_type :: string
  alert_matched_text :: string
  status :: string

text \<open>A row of \<open>alert_deliveries\<close>, with the four columns that \<open>log_delivery\<close> writes.\<close>

record alert_delivery =
  delivery_alert_id :: int
  delivery_channel_id :: int
  delivery_status :: string
  error_message :: string

text \<open>
  A notification channel as the dict that \<open>get_enabled_channels\<close> builds from a row of
  \<open>notification_channels\<close>. The three keys that the dispatcher reads with
  \<open>channel.get(key, default)\<close> are options: \<open>None\<close> is an absent key.
\<close>

record channel =
  channel_id :: "int option"
  channel_type :: "string option"
  channel_config :: "(string \<times> string) list option"
  channel_enabled :: bool

text \<open>A row of \<open>trial_subscriptions\<close>, with the columns that \<open>expire_trials\<close> uses.\<close>

record trial =
  trial_id :: int
  telegram_chat_id :: string
  expires_at :: string
  expired_notified :: int

text \<open>
  The database: one list of rows per table, in insertion order. \<open>config\<close> is the
  key/value table; \<open>activity_log\<close> keeps the \<open>event_type\<close> of each entry (the message
  and details texts are not modelled).
\<close>

record db =
  alerts :: "alert list"
  alert_deliveries :: "alert_delivery list"
  locations :: "location list"
  notification_channels :: "channel list"
  config :: "(string \<times> string) list"
  trial_subscriptions :: "trial list"
  activity_log :: "string list"

text \<open>
  Modelled from the spec: the declaration of the \<open>alerts\<close> table. The file
  \<open>schema.sql\<close> that \<open>init_schema\<close> executes is not among the sources. The spec states a
  unique constraint on \<open>(bmkg_alert_code, matched_location_id)\<close>; the flag says whether
  the table declares it, so that every result below shows whether it relies on the
  constraint.
\<close>

record schema =
  alerts_unique_code_location :: bool

datatype error = DuplicateKey | Raised string

text \<open>\<open>str(exc)\<close> for an exception that reaches an \<open>except\<close> clause.\<close>

fun error_str :: "error \<Rightarrow> string" where
  "error_str DuplicateKey =
     ''UNIQUE constraint failed: alerts.bmkg_alert_code, alerts.matched_location_id''"
| "error_str (Raised msg) = msg"

text \<open>
  Modelled from the spec: \<open>id\<close> is the key of an alert, which the store assigns. The
  value is the row id that SQLite gives an inserted row: one more than the largest id in
  the table, and 1 in an empty table.
\<close>

definition next_rowid :: "int list \<Rightarrow> int" where
  "next_rowid ids = (if ids = [] then 1 else Max (set ids) + 1)"

text \<open>
  Modelled from the spec: what \<open>DatabaseManager.execute\<close> does with the
  \<open>INSERT INTO alerts\<close> statement of \<open>store_alert\<close>. Under the unique constraint the
  insert is refused (\<open>sqlite3.IntegrityError\<close>, the spec's \<open>DuplicateKey\<close>) when a row
  with the same code and the same non-null location id exists, and the table stays as it
  is. Otherwise the row is appended under a fresh id, which is the \<open>lastrowid\<close> of the
  cursor.
\<close>

definition insert_alert :: "schema \<Rightarrow> db \<Rightarrow> alert \<Rightarrow> error + (int \<times> db)" where
  "insert_alert sch d row =
     (if alerts_unique_code_location sch
         \<and> matched_location_id row \<noteq> None
         \<and> (\<exists>a \<in> set (alerts d). bmkg_alert_code a = bmkg_alert_code row
                \<and> matched_location_id a = matched_location_id row)
      then Inl DuplicateKey
      else
        let rowid = next_rowid (map alert_id (alerts d))
        in Inr (rowid, d\<lparr>alerts := alerts d @ [row\<lparr>alert_id := rowid\<rparr>]\<rparr>))"

section \<open>State manager (app/engine/state.py)\<close>

text \<open>\<open>fetch_one\<close> returns the first row that the \<open>WHERE\<close> clause selects, or \<open>None\<close>.\<close>

definition is_duplicate :: "db \<Rightarrow> string \<Rightarrow> int \<Rightarrow> bool" where
  "is_duplicate d alert_code location_id =
     (case find (\<lambda>a. bmkg_alert_code a = alert_code
                      \<and> matched_location_id a = Some location_id) (alerts d) of
        None \<Rightarrow> False
      | Some row \<Rightarrow> True)"

definition store_alert ::
  "schema \<Rightarrow> db \<Rightarrow> warning_info \<Rightarrow> match_result \<Rightarrow> string \<Rightarrow> error + (int \<times> db)" where
  "store_alert sch d warning match alert_code =
     insert_alert sch d
       \<lparr>alert_id = 0,
        bmkg_alert_code = alert_code,
        alert_event = event warning,
        alert_severity = severity warning,
        alert_urgency = urgency warning,
        alert_certainty = certainty warning,
        alert_headline = headline warning,
        alert_description = description warning,
        alert_effective = effective warning,
        alert_expires = Some (expires warning),
        alert_infographic_url = infographic_url warning,
        polygon_data = areas warning,
        matched_location_id = Some (loc_id (location match)),
        alert_match_type = match_type match,
        alert_matched_text = matched_text match,
        status = ''active''\<rparr>"

text \<open>
  The \<open>WHERE\<close> clause of \<open>mark_expired_alerts\<close>; a comparison with \<open>NULL\<close> selects
  nothing.
\<close>

definition should_expire :: "string \<Rightarrow> alert \<Rightarrow> bool" where
  "should_expire now_utc a =
     (status a = ''active''
      \<and> (case alert_expires a of None \<Rightarrow> False | Some e \<Rightarrow> e \<noteq> [] \<and> e < now_utc))"

text \<open>\<open>UPDATE alerts SET status = 'expired' WHERE id = ?\<close>\<close>

definition set_expired :: "int \<Rightarrow> db \<Rightarrow> db" where
  "set_expired i d =
     d\<lparr>alerts := map (\<lambda>a. if alert_id a = i then a\<lparr>status := ''expired''\<rparr> else a) (alerts d)\<rparr>"

fun mark_expired_loop :: "alert list \<Rightarrow> alert list \<Rightarrow> db \<Rightarrow> alert list \<times> db" where
  "mark_expired_loop [] expired_alerts d = (expired_alerts, d)"
| "mark_expired_loop (row # rows) expired_alerts d =
     mark_expired_loop rows (expired_alerts @ [row]) (set_expired (alert_id row) d)"

definition mark_expired_alerts :: "string \<Rightarrow> db \<Rightarrow> alert list \<times> db" where
  "mark_expired_alerts now_utc d =
     mark_expired_loop (filter (should_expire now_utc) (alerts d)) [] d"

definition log_activity :: "db \<Rightarrow> string \<Rightarrow> db" where
  "log_activity d event_type = d\<lparr>activity_log := activity_log d @ [event_type]\<rparr>"

definition log_delivery :: "db \<Rightarrow> int \<Rightarrow> int \<Rightarrow> string \<Rightarrow> string \<Rightarrow> db" where
  "log_delivery d a_id c_id st msg =
     d\<lparr>alert_deliveries := alert_deliveries d @
          [\<lparr>delivery_alert_id = a_id, delivery_channel_id = c_id,
            delivery_status = st, error_message = msg\<rparr>]\<rparr>"

definition get_enabled_locations :: "db \<Rightarrow> location list" where
  "get_enabled_locations d = filter enabled (locations d)"

definition get_enabled_channels :: "db \<Rightarrow> channel list" where
  "get_enabled_channels d = filter channel_enabled (notification_channels d)"

definition get_config_value :: "db \<Rightarrow> string \<Rightarrow> string \<Rightarrow> string" where
  "get_config_value d key default_value =
     (case map_of (config d) key of None \<Rightarrow> default_value | Some v \<Rightarrow> v)"

text \<open>
  \<open>expire_trials\<close>, with the value of SQLite's \<open>CURRENT_TIMESTAMP\<close> as an argument. The
  single \<open>UPDATE ... WHERE id IN (...)\<close> runs only when some row was selected.
\<close>

definition trial_due :: "string \<Rightarrow> trial \<Rightarrow> bool" where
  "trial_due current_timestamp t = (expires_at t \<le> current_timestamp \<and> expired_notified t = 0)"

definition expire_trials :: "string \<Rightarrow> db \<Rightarrow> trial list \<times> db" where
  "expire_trials current_timestamp d =
     (let expired = filter (trial_due current_timestamp) (trial_subscriptions d) in
      if expired \<noteq> []
      then
        let ids = map trial_id expired
        in (expired,
            d\<lparr>trial_subscriptions :=
                 map (\<lambda>t. if trial_id t \<in> set ids then t\<lparr>expired_notified := 1\<rparr> else t)
                     (trial_subscriptions d)\<rparr>)
      else (expired, d))"

section \<open>Notification dispatcher (app/notifications/dispatcher.py)\<close>

text \<open>
  \<open>int(s)\<close> on a string, for ASCII input: surrounding whitespace is stripped, one sign
  is allowed, and the digits may be separated by single underscores. \<open>None\<close> stands for
  \<open>ValueError\<close>.
\<close>

definition is_space :: "char \<Rightarrow> bool" where
  "is_space c \<longleftrightarrow>
     c \<in> set [CHR '' '', CHR 0x09, CHR 0x0A, CHR 0x0B, CHR 0x0C, CHR 0x0D,
               CHR 0x1C, CHR 0x1D, CHR 0x1E, CHR 0x1F]"

definition strip :: "string \<Rightarrow> string" where
  "strip s = rev (dropWhile is_space (rev (dropWhile is_space s)))"

definition digit_value :: "char \<Rightarrow> nat option" where
  "digit_value c = map_of (zip ''0123456789'' [0, 1, 2, 3, 4, 5, 6, 7, 8, 9]) c"

fun parse_digits :: "nat \<Rightarrow> string \<Rightarrow> nat option" where
  "parse_digits acc [] = Some acc"
| "parse_digits acc [c] =
     (case digit_value c of None \<Rightarrow> None | Some v \<Rightarrow> Some (10 * acc + v))"
| "parse_digits acc (c # d # ds) =
     (if c = CHR ''_''
      then (case digit_value d of None \<Rightarrow> None | Some v \<Rightarrow> parse_digits (10 * acc + v) ds)
      else (case digit_value c of
              None \<Rightarrow> None
            | Some v \<Rightarrow> parse_digits (10 * acc + v) (d # ds)))"

definition parse_nat :: "string \<Rightarrow> nat option" where
  "parse_nat s =
     (case s of
        [] \<Rightarrow> None
      | c # cs \<Rightarrow> (case digit_value c of None \<Rightarrow> None | Some v \<Rightarrow> parse_digits v cs))"

definition py_int :: "string \<Rightarrow> int option" where
  "py_int s =
     (case strip s of
        [] \<Rightarrow> None
      | c # cs \<Rightarrow>
          if c = CHR ''-'' then map_option (\<lambda>n. - int n) (parse_nat cs)
          else if c = CHR ''+'' then map_option int (parse_nat cs)
          else map_option int (parse_nat (c # cs)))"

text \<open>\<open>s.split(":")[0]\<close>: the text before the first colon; the list is never empty.\<close>

definition hour_field :: "string \<Rightarrow> string" where
  "hour_field s = takeWhile (\<lambda>c. c \<noteq> CHR '':'') s"

text \<open>
  \<open>_is_quiet_hours\<close>, with \<open>datetime.now(timezone.utc).hour\<close> as the argument
  \<open>now\<close>. A \<open>ValueError\<close> from either \<open>int\<close> is caught and gives \<open>False\<close>.
\<close>

definition is_quiet_hours :: "db \<Rightarrow> int \<Rightarrow> string \<Rightarrow> bool" where
  "is_quiet_hours d now sev =
     (let enabled_value = get_config_value d ''quiet_hours_enabled'' ''false'' in
      if enabled_value \<noteq> ''true'' then False
      else
        let override_severe = get_config_value d ''quiet_hours_override_severe'' ''true'' in
        if override_severe = ''true'' \<and> sev \<in> set [''Severe'', ''Extreme''] then False
        else
          let start_str = get_config_value d ''quiet_hours_start'' ''22:00'';
              end_str = get_config_value d ''quiet_hours_end'' ''06:00'';
              local_hour = (now + 7) mod 24
          in case py_int (hour_field start_str) of
               None \<Rightarrow> False
             | Some start_hour \<Rightarrow>
                 (case py_int (hour_field end_str) of
                    None \<Rightarrow> False
                  | Some end_hour \<Rightarrow>
                      if start_hour > end_hour
                      then local_hour \<ge> start_hour \<or> local_hour < end_hour
                      else start_hour \<le> local_hour \<and> local_hour < end_hour))"

datatype sender_kind = Telegram | Discord | Slack | Email | Webhook

definition sender_map :: "string \<Rightarrow> sender_kind option" where
  "sender_map = map_of
     [(''telegram'', Telegram), (''discord'', Discord), (''slack'', Slack),
      (''email'', Email), (''webhook'', Webhook)]"

text \<open>
  What a call of a channel sender's \<open>send\<close> does, as the dispatcher sees it: it returns a
  truth value or raises an exception with a message. The senders talk to the network, so
  their behaviour is an argument of the model.
\<close>

datatype sender_outcome = Returns bool | Raises string

type_synonym network =
  "sender_kind \<Rightarrow> warning_info \<Rightarrow> match_result \<Rightarrow> (string \<times> string) list \<Rightarrow> sender_outcome"

definition send ::
  "network \<Rightarrow> int \<Rightarrow> db \<Rightarrow> int \<Rightarrow> warning_info \<Rightarrow> match_result \<Rightarrow> channel \<Rightarrow> bool \<times> db" where
  "send net now d a_id warning match chan =
     (let c_id = (case channel_id chan of None \<Rightarrow> 0 | Some i \<Rightarrow> i);
          c_type = (case channel_type chan of None \<Rightarrow> [] | Some t \<Rightarrow> t);
          c_config = (case channel_config chan of None \<Rightarrow> [] | Some c \<Rightarrow> c)
      in
        if is_quiet_hours d now (severity warning)
        then (False, log_delivery d a_id c_id ''skipped_quiet_hours'' [])
        else
          let (success, error_msg) =
                (case sender_map c_type of
                   Some sender_k \<Rightarrow>
                     (case net sender_k warning match c_config of
                        Returns ok \<Rightarrow> (ok, [])
                      | Raises msg \<Rightarrow> (False, msg))
                 | None \<Rightarrow> (False, ''Unsupported channel type: '' @ c_type));
              st = (if success then ''sent'' else ''failed'')
          in (success, log_delivery d a_id c_id st error_msg))"

section \<open>Alert engine (app/engine/worker.py)\<close>

record nowcast_item =
  code :: string
  province :: string

text \<open>
  What one poll cycle gets from outside the store: the answers of the upstream client
  (\<open>Inl msg\<close> is an exception with that message), the channel senders, the clock
  readings, and the result of \<open>_process_trials\<close>, which sends chat messages and writes
  nothing to the store.
\<close>

record env =
  get_nowcast_list :: "string + nowcast_item list"
  get_nowcast_detail :: "string \<Rightarrow> string + warning_info list"
  senders :: network
  utc_hour :: int
  now_utc :: string
  current_timestamp :: string
  process_trials :: "string + nat"

record summary =
  warnings_fetched :: nat
  details_fetched :: nat
  matches_found :: nat
  new_alerts :: nat
  duplicates_skipped :: nat
  notifications_sent :: nat
  expired_alerts :: nat
  trial_notifications :: nat
  trials_expired :: nat
  errors :: "string list"

definition empty_summary :: summary where
  "empty_summary = \<lparr>warnings_fetched = 0, details_fetched = 0, matches_found = 0,
     new_alerts = 0, duplicates_skipped = 0, notifications_sent = 0, expired_alerts = 0,
     trial_notifications = 0, trials_expired = 0, errors = []\<rparr>"

text \<open>
  \<open>for channel in channels\<close>: one dispatcher call per channel, in list order. On an
  empty list nothing happens, as under the guard \<open>if channels and self._dispatcher\<close> (the
  application always passes a dispatcher). \<open>send\<close> catches what a sender raises, so the
  \<open>except\<close> clause around the call has nothing to catch in this model.
\<close>

fun for_channels ::
  "env \<Rightarrow> int \<Rightarrow> warning_info \<Rightarrow> match_result \<Rightarrow> channel list \<Rightarrow> summary \<times> db
     \<Rightarrow> summary \<times> db" where
  "for_channels e a_id warning match [] (s, d) = (s, d)"
| "for_channels e a_id warning match (chan # channels) (s, d) =
     (let (success, d') = send (senders e) (utc_hour e) d a_id warning match chan
      in for_channels e a_id warning match channels
           (if success then s\<lparr>notifications_sent := notifications_sent s + 1\<rparr> else s, d'))"

text \<open>
  \<open>for match in matches\<close>. An exception of \<open>store_alert\<close> leaves the loop (it is caught
  around the whole item); what was written before stays written.
\<close>

fun for_matches ::
  "schema \<Rightarrow> env \<Rightarrow> channel list \<Rightarrow> string \<Rightarrow> warning_info \<Rightarrow> match_result list
     \<Rightarrow> summary \<times> db \<Rightarrow> error option \<times> summary \<times> db" where
  "for_matches sch e channels item_code warning [] (s, d) = (None, s, d)"
| "for_matches sch e channels item_code warning (match # matches) (s, d) =
     (if is_duplicate d item_code (loc_id (location match))
      then for_matches sch e channels item_code warning matches
             (s\<lparr>duplicates_skipped := duplicates_skipped s + 1\<rparr>, d)
      else
        case store_alert sch d warning match item_code of
          Inl err \<Rightarrow> (Some err, s, d)
        | Inr (a_id, d') \<Rightarrow>
            for_matches sch e channels item_code warning matches
              (for_channels e a_id warning match channels
                 (s\<lparr>new_alerts := new_alerts s + 1\<rparr>, d')))"

fun for_warnings ::
  "schema \<Rightarrow> env \<Rightarrow> location list \<Rightarrow> channel list \<Rightarrow> string \<Rightarrow> warning_info list
     \<Rightarrow> summary \<times> db \<Rightarrow> error option \<times> summary \<times> db" where
  "for_warnings sch e locs channels item_code [] (s, d) = (None, s, d)"
| "for_warnings sch e locs channels item_code (warning # warnings) (s, d) =
     (if is_expired warning then for_warnings sch e locs channels item_code warnings (s, d)
      else
        let matches = match_locations warning locs;
            s' = s\<lparr>matches_found := matches_found s + length matches\<rparr>
        in case for_matches sch e channels item_code warning matches (s', d) of
             (Some err, s'', d'') \<Rightarrow> (Some err, s'', d'')
           | (None, s'', d'') \<Rightarrow> for_warnings sch e locs channels item_code warnings (s'', d''))"

text \<open>
  \<open>for item in nowcast.data\<close>, with its \<open>try\<close>/\<open>except\<close>: a failure while handling an
  item is recorded in \<open>errors\<close> and the loop goes on with the next item.
\<close>

fun for_items ::
  "schema \<Rightarrow> env \<Rightarrow> location list \<Rightarrow> channel list \<Rightarrow> nowcast_item list
     \<Rightarrow> summary \<times> db \<Rightarrow> summary \<times> db" where
  "for_items sch e locs channels [] (s, d) = (s, d)"
| "for_items sch e locs channels (item # items) (s, d) =
     (case get_nowcast_detail e (code item) of
        Inl msg \<Rightarrow>
          for_items sch e locs channels items
            (s\<lparr>errors := errors s @ [code item @ '': '' @ msg]\<rparr>, d)
      | Inr warnings \<Rightarrow>
          (case for_warnings sch e locs channels (code item) warnings
                  (s\<lparr>details_fetched := details_fetched s + 1\<rparr>, d) of
             (Some err, s', d') \<Rightarrow>
               for_items sch e locs channels items
                 (s'\<lparr>errors := errors s' @ [code item @ '': '' @ error_str err]\<rparr>, d')
           | (None, s', d') \<Rightarrow> for_items sch e locs channels items (s', d')))"

text \<open>
  \<open>_run_poll_cycle\<close>: the summary it returns and the store it leaves. The attributes
  \<open>_last_poll\<close> and \<open>_last_poll_result\<close> of the engine object are not part of the store
  and are not modelled.
\<close>

definition run_poll_cycle :: "schema \<Rightarrow> env \<Rightarrow> db \<Rightarrow> summary \<times> db" where
  "run_poll_cycle sch e d =
     (case get_nowcast_list e of
        Inl msg \<Rightarrow> (empty_summary, log_activity d ''poll_error'')
      | Inr data \<Rightarrow>
          let s0 = empty_summary\<lparr>warnings_fetched := length data\<rparr> in
          if data = [] then (s0, log_activity d ''poll_completed'')
          else
            let locs = get_enabled_locations d in
            if locs = [] then (s0, d)
            else
              let channels = get_enabled_channels d;
                  (s1, d1) = for_items sch e locs channels data (s0, d);
                  (expired, d2) = mark_expired_alerts (now_utc e) d1;
                  s2 = s1\<lparr>expired_alerts := length expired\<rparr>
              in case process_trials e of
                   Inl msg \<Rightarrow> (s2, log_activity d2 ''poll_error'')
                 | Inr sent_count \<Rightarrow>
                     let s3 = s2\<lparr>trial_notifications := sent_count\<rparr>;
                         (expired_trials, d3) = expire_trials (current_timestamp e) d2;
                         s4 = s3\<lparr>trials_expired := length expired_trials\<rparr>
                     in (s4, log_activity d3 ''poll_completed''))"

text \<open>
  The stores that the engine can leave behind: it starts on an empty \<open>alerts\<close> table,
  runs poll cycles one after the other, and between two cycles the admin surface may
  change any table but \<open>alerts\<close>, which it never writes.
\<close>

inductive reachable :: "schema \<Rightarrow> db \<Rightarrow> bool" for sch :: schema where
  initial: "alerts d = [] \<Longrightarrow> reachable sch d"
| cycle: "reachable sch d \<Longrightarrow> reachable sch (snd (run_poll_cycle sch e d))"
| admin: "reachable sch d \<Longrightarrow> alerts d' = alerts d \<Longrightarrow> reachable sch d'"

section \<open>Auxiliary definitions for the proofs\<close>

text \<open>What one location contributes to the result, as a function of the location alone.\<close>

definition match_one :: "string \<Rightarrow> string set \<Rightarrow> location \<Rightarrow> match_result list" where
  "match_one dl an loc =
     (if \<not> enabled loc then []
      else if lower (subdistrict_name loc) \<noteq> [] \<and> contains (lower (subdistrict_name loc)) dl
      then [\<lparr>location = loc, match_type = ''kecamatan'', matched_text = subdistrict_name loc\<rparr>]
      else if lower (district_name loc) \<noteq> []
              \<and> (\<exists>a \<in> an. contains (lower (district_name loc)) a)
      then [\<lparr>location = loc, match_type = ''kabupaten'', matched_text = district_name loc\<rparr>]
      else [])"

text \<open>The effect of the \<open>UPDATE\<close> statements of \<open>mark_expired_alerts\<close> for a set of ids.\<close>

definition expire_ids :: "int set \<Rightarrow> alert \<Rightarrow> alert" where
  "expire_ids ids a = (if alert_id a \<in> ids then a\<lparr>status := ''expired''\<rparr> else a)"

text \<open>
  What the \<open>try\<close> block of \<open>send\<close> leaves in \<open>success\<close> and in \<open>error_msg\<close>.
\<close>

definition route_success :: "network \<Rightarrow> warning_info \<Rightarrow> match_result \<Rightarrow> channel \<Rightarrow> bool" where
  "route_success net w m chan =
     (case sender_map (case channel_type chan of None \<Rightarrow> [] | Some t \<Rightarrow> t) of
        Some k \<Rightarrow>
          (case net k w m (case channel_config chan of None \<Rightarrow> [] | Some c \<Rightarrow> c) of
             Returns ok \<Rightarrow> ok
           | Raises msg \<Rightarrow> False)
      | None \<Rightarrow> False)"

definition route_error :: "network \<Rightarrow> warning_info \<Rightarrow> match_result \<Rightarrow> channel \<Rightarrow> string" where
  "route_error net w m chan =
     (case sender_map (case channel_type chan of None \<Rightarrow> [] | Some t \<Rightarrow> t) of
        Some k \<Rightarrow>
          (case net k w m (case channel_config chan of None \<Rightarrow> [] | Some c \<Rightarrow> c) of
             Returns ok \<Rightarrow> []
           | Raises msg \<Rightarrow> msg)
      | None \<Rightarrow>
          ''Unsupported channel type: '' @ (case channel_type chan of None \<Rightarrow> [] | Some t \<Rightarrow> t))"

text \<open>The dedup invariant of the \<open>alerts\<close> table: no pair of code and location id twice.\<close>

definition dedup_ok :: "alert list \<Rightarrow> bool" where
  "dedup_ok as \<longleftrightarrow>
     (\<forall>c l. length (filter (\<lambda>a. bmkg_alert_code a = c \<and> matched_location_id a = Some l) as)
              \<le> 1)"

subsection \<open>Example data\<close>

definition ex_alian :: location where
  "ex_alian = \<lparr>loc_id = 1, label = Some ''Lokasi 1'', province_code = ''33'',
     province_name = ''Jawa Tengah'', district_code = ''3305'', district_name = ''Kebumen'',
     subdistrict_code = ''330501'', subdistrict_name = ''Alian'', enabled = True\<rparr>"

definition ex_warning :: warning_info where
  "ex_warning = \<lparr>warning_identifier = [], event = ''Hujan Lebat dan Petir'',
     severity = ''Moderate'', urgency = [], certainty = [], effective = [],
     expires = ''2026-02-17T23:00:00+07:00'', headline = [],
     description = ''Hujan di Alian, Bonorowo'', sender = [], infographic_url = [],
     areas = [\<lparr>name = ''Kebumen'', polygon = []\<rparr>], is_expired = False\<rparr>"

definition ex_no_subdistrict :: location where
  "ex_no_subdistrict = ex_alian\<lparr>loc_id := 2, subdistrict_name := []\<rparr>"

definition ex_disabled :: location where
  "ex_disabled = ex_alian\<lparr>loc_id := 3, enabled := False\<rparr>"

definition ex_alert_old :: alert where
  "ex_alert_old = \<lparr>alert_id = 1, bmkg_alert_code = ''CBT1'',
     alert_event = ''Hujan Lebat dan Petir'', alert_severity = ''Moderate'',
     alert_urgency = [], alert_certainty = [], alert_headline = [],
     alert_description = ''Hujan di Alian, Bonorowo'', alert_effective = [],
     alert_expires = Some ''2000-01-01T00:00:00+00:00'', alert_infographic_url = [],
     polygon_data = [], matched_location_id = Some 1, alert_match_type = ''kecamatan'',
     alert_matched_text = ''Alian'', status = ''active''\<rparr>"

definition ex_alert_new :: alert where
  "ex_alert_new = ex_alert_old\<lparr>alert_id := 2, bmkg_alert_code := ''CBT2'',
     alert_expires := Some ''2099-01-01T00:00:00+00:00''\<rparr>"

definition ex_trial_due :: trial where
  "ex_trial_due = \<lparr>trial_id = 1, telegram_chat_id = ''1001'',
     expires_at = ''2026-02-17 10:00:00'', expired_notified = 0\<rparr>"

definition ex_trial_running :: trial where
  "ex_trial_running = \<lparr>trial_id = 2, telegram_chat_id = ''1002'',
     expires_at = ''2026-02-18 09:30:00'', expired_notified = 0\<rparr>"

definition ex_channel :: channel where
  "ex_channel = \<lparr>channel_id = Some 7, channel_type = Some ''telegram'',
     channel_config = Some [(''chat_id'', ''1001'')], channel_enabled = True\<rparr>"

definition ex_db :: db where
  "ex_db = \<lparr>alerts = [ex_alert_old, ex_alert_new], alert_deliveries = [],
     locations = [ex_alian], notification_channels = [ex_channel],
     config = [(''quiet_hours_enabled'', ''true'')],
     trial_subscriptions = [ex_trial_due, ex_trial_running], activity_log = []\<rparr>"

definition ex_schema :: schema where
  "ex_schema = \<lparr>alerts_unique_code_location = True\<rparr>"

definition ex_match :: match_result where
  "ex_match = \<lparr>location = ex_alian, match_type = ''kecamatan'', matched_text = ''Alian''\<rparr>"

definition ex_db_malformed :: db where
  "ex_db_malformed = ex_db\<lparr>config :=
     [(''quiet_hours_enabled'', ''true''), (''quiet_hours_start'', [])]\<rparr>"

definition ex_db_empty :: db where
  "ex_db_empty = ex_db\<lparr>alerts := [], config := []\<rparr>"

definition ex_env :: env where
  "ex_env = \<lparr>get_nowcast_list = Inr [\<lparr>code = ''CBT1'', province = ''Jawa Tengah''\<rparr>],
     get_nowcast_detail = (\<lambda>c. Inr [ex_warning, ex_warning]),
     senders = (\<lambda>k w m c. Returns True),
     utc_hour = 3,
     now_utc = ''2026-02-17T03:00:00.000000+00:00'',
     current_timestamp = ''2026-02-17 03:00:00'',
     process_trials = Inr 0\<rparr>"

definition ex_schema_plain :: schema where
  "ex_schema_plain = \<lparr>alerts_unique_code_location = False\<rparr>"

definition ex_alert_due_later :: alert where
  "ex_alert_due_later = ex_alert_old\<lparr>alert_id := 3, bmkg_alert_code := ''CBT3'',
     alert_expires := Some ''2026-02-17T16:00:01+00:00''\<rparr>"

definition ex_trial_due_later :: trial where
  "ex_trial_due_later = \<lparr>trial_id = 5, telegram_chat_id = ''1005'',
     expires_at = ''2026-02-17 16:00:01'', expired_notified = 0\<rparr>"

definition ex_db_clock :: db where
  "ex_db_clock = ex_db\<lparr>alerts := [ex_alert_old, ex_alert_due_later],
     trial_subscriptions := [ex_trial_due, ex_trial_due_later]\<rparr>"

section \<open>Properties of the matcher\<close>

lemma contains_sublist: "contains needle haystack \<longleftrightarrow> sublist needle haystack"
proof (induction haystack)
  case Nil
  then show ?case by simp
next
  case (Cons h hs)
  then show ?case by (cases needle) (simp_all add: sublist_code)
qed

lemma match_loop_concat:
  "match_loop dl an locs results = results @ concat (map (match_one dl an) locs)"
  by (induction locs arbitrary: results)
     (simp_all add: match_one_def word_boundary_match_def Let_def)

lemma match_locations_concat:
  "match_locations w locs =
     concat (map (match_one (lower (description w))
                            (set (map (\<lambda>area. lower (name area)) (areas w)))) locs)"
  by (simp add: match_locations_def match_loop_concat)

lemma in_match_locations:
  "m \<in> set (match_locations w locs) \<longleftrightarrow>
     (\<exists>loc \<in> set locs. m \<in> set (match_one (lower (description w))
                                   (set (map (\<lambda>area. lower (name area)) (areas w))) loc))"
  by (auto simp: match_locations_concat)

lemma match_one_location: "m \<in> set (match_one dl an loc) \<Longrightarrow> location m = loc"
  by (auto simp: match_one_def split: if_splits)

lemma lower_Nil_iff: "lower s = [] \<longleftrightarrow> s = []"
  by (simp add: lower_def)

lemma match_one_sound:
  assumes "m \<in> set (match_one (lower d) (set (map (\<lambda>area. lower (name area)) ars)) loc)"
  shows "(match_type m = ''kecamatan''
            \<and> sublist (lower (subdistrict_name (location m))) (lower d))
         \<or> (match_type m = ''kabupaten''
            \<and> (\<exists>a \<in> set ars. sublist (lower (district_name (location m))) (lower (name a))))"
  using assms by (auto simp: match_one_def contains_sublist split: if_splits)

lemma match_one_priority:
  assumes "m \<in> set (match_one dl an loc)" and "match_type m = ''kabupaten''"
  shows "\<not> (subdistrict_name (location m) \<noteq> []
            \<and> sublist (lower (subdistrict_name (location m))) dl)"
  using assms by (auto simp: match_one_def contains_sublist lower_Nil_iff split: if_splits)

lemma match_one_same_type:
  assumes "m \<in> set (match_one dl an loc)" and "m' \<in> set (match_one dl an loc)"
  shows "m' = m"
  using assms by (auto simp: match_one_def split: if_splits)

lemma match_one_count:
  "length (filter (\<lambda>m. location m = l) (match_one dl an loc)) \<le> (if loc = l then 1 else 0)"
  by (simp add: match_one_def)

lemma match_concat_count:
  "length (filter (\<lambda>m. location m = l) (concat (map (match_one dl an) locs)))
     \<le> count_list locs l"
proof (induction locs)
  case Nil
  then show ?case by simp
next
  case (Cons loc locs)
  have "length (filter (\<lambda>m. location m = l) (match_one dl an loc))
          \<le> (if loc = l then 1 else 0)"
    by (rule match_one_count)
  with Cons show ?case by auto
qed

text \<open>
  C3. Every match that \<open>match_locations\<close> returns is either a kecamatan match whose
  lower-cased subdistrict name occurs in the lower-cased description, or a kabupaten match
  whose lower-cased district name occurs in the lower-cased name of some area. A kabupaten
  match is only produced when the kecamatan test failed for that location, all matches of
  one location have the same type, and a location yields no more matches than it has
  occurrences in the input list.
\<close>

theorem match_locations_sound:
  "\<forall>m \<in> set (match_locations w locs).
     ((match_type m = ''kecamatan''
         \<and> sublist (lower (subdistrict_name (location m))) (lower (description w)))
      \<or> (match_type m = ''kabupaten''
         \<and> (\<exists>a \<in> set (areas w).
               sublist (lower (district_name (location m))) (lower (name a)))))
     \<and> (match_type m = ''kabupaten'' \<longrightarrow>
          \<not> (subdistrict_name (location m) \<noteq> []
               \<and> sublist (lower (subdistrict_name (location m))) (lower (description w))))
     \<and> (\<forall>m' \<in> set (match_locations w locs).
          location m' = location m \<longrightarrow> match_type m' = match_type m)
     \<and> length (filter (\<lambda>m'. location m' = location m) (match_locations w locs))
          \<le> count_list locs (location m)"
proof
  fix m
  assume m: "m \<in> set (match_locations w locs)"
  let ?dl = "lower (description w)"
  let ?an = "set (map (\<lambda>area. lower (name area)) (areas w))"
  from m obtain loc where loc: "loc \<in> set locs" "m \<in> set (match_one ?dl ?an loc)"
    by (auto simp: in_match_locations)
  have a: "(match_type m = ''kecamatan''
              \<and> sublist (lower (subdistrict_name (location m))) ?dl)
           \<or> (match_type m = ''kabupaten''
              \<and> (\<exists>a \<in> set (areas w).
                    sublist (lower (district_name (location m))) (lower (name a))))"
    using loc(2) by (rule match_one_sound)
  have b: "match_type m = ''kabupaten'' \<longrightarrow>
             \<not> (subdistrict_name (location m) \<noteq> []
                  \<and> sublist (lower (subdistrict_name (location m))) ?dl)"
    using loc(2) match_one_priority by blast
  have c: "\<forall>m' \<in> set (match_locations w locs).
             location m' = location m \<longrightarrow> match_type m' = match_type m"
  proof (intro ballI impI)
    fix m'
    assume m': "m' \<in> set (match_locations w locs)" and same: "location m' = location m"
    from m' obtain loc' where loc': "m' \<in> set (match_one ?dl ?an loc')"
      by (auto simp: in_match_locations)
    have "loc' = loc"
      using match_one_location [OF loc'] match_one_location [OF loc(2)] same by simp
    with loc' loc(2) show "match_type m' = match_type m"
      using match_one_same_type by blast
  qed
  have d: "length (filter (\<lambda>m'. location m' = location m) (match_locations w locs))
             \<le> count_list locs (location m)"
    unfolding match_locations_concat by (rule match_concat_count)
  from a b c d
  show "((match_type m = ''kecamatan''
         \<and> sublist (lower (subdistrict_name (location m))) (lower (description w)))
      \<or> (match_type m = ''kabupaten''
         \<and> (\<exists>a \<in> set (areas w).
               sublist (lower (district_name (location m))) (lower (name a)))))
     \<and> (match_type m = ''kabupaten'' \<longrightarrow>
          \<not> (subdistrict_name (location m) \<noteq> []
               \<and> sublist (lower (subdistrict_name (location m))) (lower (description w))))
     \<and> (\<forall>m' \<in> set (match_locations w locs).
          location m' = location m \<longrightarrow> match_type m' = match_type m)
     \<and> length (filter (\<lambda>m'. location m' = location m) (match_locations w locs))
          \<le> count_list locs (location m)"
    by blast
qed

lemma ex_match_alian:
  "match_locations ex_warning [ex_alian] =
     [\<lparr>location = ex_alian, match_type = ''kecamatan'', matched_text = ''Alian''\<rparr>]"
  by (simp add: match_locations_def ex_warning_def ex_alian_def lower_def lower_char_def
      word_boundary_match_def)

theorem match_locations_sound_witness:
  "\<lparr>location = ex_alian, match_type = ''kecamatan'', matched_text = ''Alian''\<rparr>
     \<in> set (match_locations ex_warning [ex_alian])
   \<and> sublist (lower (subdistrict_name ex_alian)) (lower (description ex_warning))"
proof -
  let ?m = "\<lparr>location = ex_alian, match_type = ''kecamatan'', matched_text = ''Alian''\<rparr>"
  have mem: "?m \<in> set (match_locations ex_warning [ex_alian])"
    by (simp add: ex_match_alian)
  from match_locations_sound [of ex_warning "[ex_alian]"] mem
  have "(match_type ?m = ''kecamatan''
         \<and> sublist (lower (subdistrict_name (location ?m))) (lower (description ex_warning)))
      \<or> (match_type ?m = ''kabupaten''
         \<and> (\<exists>a \<in> set (areas ex_warning).
               sublist (lower (district_name (location ?m))) (lower (name a))))"
    by blast
  then have "sublist (lower (subdistrict_name ex_alian)) (lower (description ex_warning))"
    by simp
  with mem show ?thesis by simp
qed

text \<open>
  C9. A location with an empty subdistrict name never gets a kecamatan match, a location
  with an empty district name never gets a kabupaten match, and every match belongs to
  an enabled location of the input list, so a disabled location gets no match at all.
\<close>

theorem match_locations_empty_names:
  "\<forall>m \<in> set (match_locations w locs).
     (subdistrict_name (location m) = [] \<longrightarrow> match_type m \<noteq> ''kecamatan'')
     \<and> (district_name (location m) = [] \<longrightarrow> match_type m \<noteq> ''kabupaten'')
     \<and> enabled (location m)
     \<and> location m \<in> set locs"
proof
  fix m
  assume "m \<in> set (match_locations w locs)"
  then obtain loc where "loc \<in> set locs"
    and "m \<in> set (match_one (lower (description w))
                    (set (map (\<lambda>area. lower (name area)) (areas w))) loc)"
    by (auto simp: in_match_locations)
  then show "(subdistrict_name (location m) = [] \<longrightarrow> match_type m \<noteq> ''kecamatan'')
     \<and> (district_name (location m) = [] \<longrightarrow> match_type m \<noteq> ''kabupaten'')
     \<and> enabled (location m)
     \<and> location m \<in> set locs"
    by (auto simp: match_one_def lower_Nil_iff split: if_splits)
qed

lemma ex_match_no_subdistrict:
  "match_locations ex_warning [ex_no_subdistrict, ex_disabled] =
     [\<lparr>location = ex_no_subdistrict, match_type = ''kabupaten'', matched_text = ''Kebumen''\<rparr>]"
  by (simp add: match_locations_def ex_warning_def ex_alian_def ex_no_subdistrict_def
      ex_disabled_def lower_def lower_char_def word_boundary_match_def)

theorem match_locations_empty_names_witness:
  "\<lparr>location = ex_no_subdistrict, match_type = ''kabupaten'', matched_text = ''Kebumen''\<rparr>
     \<in> set (match_locations ex_warning [ex_no_subdistrict, ex_disabled])
   \<and> subdistrict_name ex_no_subdistrict = []
   \<and> contains [] (lower (description ex_warning))
   \<and> enabled ex_no_subdistrict
   \<and> \<not> enabled ex_disabled
   \<and> length (match_locations ex_warning [ex_no_subdistrict, ex_disabled]) = 1"
proof -
  let ?m = "\<lparr>location = ex_no_subdistrict, match_type = ''kabupaten'',
             matched_text = ''Kebumen''\<rparr>"
  have mem: "?m \<in> set (match_locations ex_warning [ex_no_subdistrict, ex_disabled])"
    by (simp add: ex_match_no_subdistrict)
  with match_locations_empty_names [of ex_warning "[ex_no_subdistrict, ex_disabled]"]
  have "enabled (location ?m)" by blast
  then have "enabled ex_no_subdistrict" by simp
  moreover have "subdistrict_name ex_no_subdistrict = []"
    by (simp add: ex_no_subdistrict_def)
  moreover have "contains [] (lower (description ex_warning))"
    by (simp add: contains_sublist)
  moreover have "\<not> enabled ex_disabled"
    by (simp add: ex_disabled_def)
  ultimately show ?thesis using mem by (simp add: ex_match_no_subdistrict)
qed

section \<open>Properties of the state manager\<close>

lemma is_duplicate_iff:
  "is_duplicate d c l \<longleftrightarrow>
     (\<exists>a \<in> set (alerts d). bmkg_alert_code a = c \<and> matched_location_id a = Some l)"
proof -
  let ?P = "\<lambda>a. bmkg_alert_code a = c \<and> matched_location_id a = Some l"
  have "find ?P (alerts d) \<noteq> None \<longleftrightarrow> (\<exists>a \<in> set (alerts d). ?P a)"
    by (auto simp: find_None_iff)
  moreover have "is_duplicate d c l \<longleftrightarrow> find ?P (alerts d) \<noteq> None"
    by (simp add: is_duplicate_def split: option.splits)
  ultimately show ?thesis by simp
qed

lemma set_expired_alerts:
  "alerts (set_expired i d) =
     map (\<lambda>a. if alert_id a = i then a\<lparr>status := ''expired''\<rparr> else a) (alerts d)"
  by (simp add: set_expired_def)

lemma mark_expired_loop_eq:
  "mark_expired_loop rows acc d =
     (acc @ rows, d\<lparr>alerts := map (expire_ids (alert_id ` set rows)) (alerts d)\<rparr>)"
proof (induction rows arbitrary: acc d)
  case Nil
  show ?case by (simp add: expire_ids_def)
next
  case (Cons row rows)
  have "map (expire_ids (alert_id ` set rows)) (alerts (set_expired (alert_id row) d))
          = map (expire_ids (alert_id ` set (row # rows))) (alerts d)"
    by (auto simp: set_expired_alerts expire_ids_def)
  then show ?case
    by (simp add: Cons.IH) (simp add: set_expired_def)
qed

lemma mark_expired_alerts_eq:
  "mark_expired_alerts now d =
     (filter (should_expire now) (alerts d),
      d\<lparr>alerts := map (expire_ids (alert_id ` {a \<in> set (alerts d). should_expire now a}))
                      (alerts d)\<rparr>)"
  by (simp add: mark_expired_alerts_def mark_expired_loop_eq)

lemma expire_ids_distinct:
  assumes "distinct (map alert_id as)" and "a \<in> set as"
  shows "expire_ids (alert_id ` {b \<in> set as. P b}) a
           = (if P a then a\<lparr>status := ''expired''\<rparr> else a)"
proof -
  from assms have "inj_on alert_id (set as)"
    by (simp add: distinct_map)
  with assms(2) have "alert_id a \<in> alert_id ` {b \<in> set as. P b} \<longleftrightarrow> P a"
    by (auto dest: inj_onD)
  then show ?thesis by (simp add: expire_ids_def)
qed

lemma should_expire_mono:
  "should_expire now2 a \<Longrightarrow> now2 \<le> now \<Longrightarrow> should_expire now a"
  by (auto simp: should_expire_def split: option.splits)

lemma not_should_expire_after:
  assumes "a \<in> set (alerts (snd (mark_expired_alerts now d)))"
  shows "status a = ''expired'' \<or> (a \<in> set (alerts d) \<and> \<not> should_expire now a)"
proof -
  from assms obtain b where b: "b \<in> set (alerts d)"
    and a: "a = expire_ids (alert_id ` {a \<in> set (alerts d). should_expire now a}) b"
    by (auto simp: mark_expired_alerts_eq)
  show ?thesis
  proof (cases "should_expire now b")
    case True
    with b have "alert_id b \<in> alert_id ` {a \<in> set (alerts d). should_expire now a}"
      by blast
    with a show ?thesis by (simp add: expire_ids_def)
  next
    case False
    show ?thesis
    proof (cases "alert_id b \<in> alert_id ` {a \<in> set (alerts d). should_expire now a}")
      case True
      with a show ?thesis by (simp add: expire_ids_def)
    next
      case False
      with a have "a = b" by (simp add: expire_ids_def)
      with b \<open>\<not> should_expire now b\<close> show ?thesis by simp
    qed
  qed
qed

lemma mark_expired_second_empty:
  assumes "now2 \<le> now"
  shows "fst (mark_expired_alerts now2 (snd (mark_expired_alerts now d))) = []"
proof -
  have "\<not> should_expire now2 a"
    if "a \<in> set (alerts (snd (mark_expired_alerts now d)))" for a
    using not_should_expire_after [OF that] should_expire_mono [OF _ assms]
    by (auto simp: should_expire_def)
  then show ?thesis
    by (simp add: mark_expired_alerts_eq [of now2] filter_empty_conv)
qed

lemma expire_trials_eq:
  "expire_trials ts d =
     (filter (trial_due ts) (trial_subscriptions d),
      d\<lparr>trial_subscriptions :=
           map (\<lambda>t. if trial_id t \<in> trial_id ` {u \<in> set (trial_subscriptions d). trial_due ts u}
                     then t\<lparr>expired_notified := 1\<rparr> else t)
               (trial_subscriptions d)\<rparr>)"
proof (cases "filter (trial_due ts) (trial_subscriptions d) = []")
  case True
  then have "{u \<in> set (trial_subscriptions d). trial_due ts u} = {}"
    by (auto simp: filter_empty_conv)
  then have "map (\<lambda>t. if trial_id t \<in> trial_id ` {u \<in> set (trial_subscriptions d). trial_due ts u}
                     then t\<lparr>expired_notified := 1\<rparr> else t) (trial_subscriptions d)
               = trial_subscriptions d"
    by (simp only: image_empty empty_iff if_False map_ident)
  with True show ?thesis by (simp only: expire_trials_def Let_def) simp
next
  case False
  then show ?thesis by (simp add: expire_trials_def Let_def)
qed

lemma trial_after_expire:
  assumes "t \<in> set (trial_subscriptions (snd (expire_trials ts d)))"
  shows "expired_notified t = 1 \<or> (t \<in> set (trial_subscriptions d) \<and> \<not> trial_due ts t)"
proof -
  let ?ids = "trial_id ` {u \<in> set (trial_subscriptions d). trial_due ts u}"
  from assms obtain u where u: "u \<in> set (trial_subscriptions d)"
    and t: "t = (if trial_id u \<in> ?ids then u\<lparr>expired_notified := 1\<rparr> else u)"
    by (auto simp: expire_trials_eq)
  show ?thesis
  proof (cases "trial_id u \<in> ?ids")
    case True
    with t show ?thesis by simp
  next
    case False
    with u have "\<not> trial_due ts u" by blast
    with False t u show ?thesis by simp
  qed
qed

lemma expire_trials_second_empty:
  assumes "ts2 \<le> ts"
  shows "fst (expire_trials ts2 (snd (expire_trials ts d))) = []"
proof -
  have "\<not> trial_due ts2 t"
    if "t \<in> set (trial_subscriptions (snd (expire_trials ts d)))" for t
    using trial_after_expire [OF that] assms by (auto simp: trial_due_def)
  then show ?thesis
    by (simp add: expire_trials_eq [of ts2] filter_empty_conv)
qed

lemma filter_after_expire:
  "filter (should_expire now2)
     (map (\<lambda>a. if should_expire now a then a\<lparr>status := ''expired''\<rparr> else a) as)
   = filter (\<lambda>a. should_expire now2 a \<and> \<not> should_expire now a) as"
  by (induction as) (auto simp: should_expire_def)

lemma filter_after_notify:
  "filter (trial_due ts2)
     (map (\<lambda>t. if trial_due ts t then t\<lparr>expired_notified := 1\<rparr> else t) tr)
   = filter (\<lambda>t. trial_due ts2 t \<and> \<not> trial_due ts t) tr"
  by (induction tr) (auto simp: trial_due_def)

text \<open>
  C8. \<open>is_duplicate\<close> is true exactly when the \<open>alerts\<close> table holds a row with the
  given code and location id; the status of the rows plays no part: rewriting the status
  column in any way leaves the answer as it is.
\<close>

theorem is_duplicate_any_status:
  "(is_duplicate d c l \<longleftrightarrow>
      (\<exists>a \<in> set (alerts d). bmkg_alert_code a = c \<and> matched_location_id a = Some l))
   \<and> is_duplicate (d\<lparr>alerts := map (\<lambda>a. a\<lparr>status := f a\<rparr>) (alerts d)\<rparr>) c l
       = is_duplicate d c l"
  by (simp add: is_duplicate_iff)

theorem is_duplicate_any_status_witness:
  "is_duplicate (ex_db\<lparr>alerts := map (\<lambda>a. a\<lparr>status := ''expired''\<rparr>) (alerts ex_db)\<rparr>) ''CBT1'' 1
   \<and> \<not> is_duplicate ex_db ''CBT1'' 2"
proof -
  have "\<exists>a \<in> set (alerts ex_db). bmkg_alert_code a = ''CBT1'' \<and> matched_location_id a = Some 1"
    by (simp add: ex_db_def ex_alert_old_def)
  moreover have
    "\<not> (\<exists>a \<in> set (alerts ex_db). bmkg_alert_code a = ''CBT1'' \<and> matched_location_id a = Some 2)"
    by (simp add: ex_db_def ex_alert_old_def ex_alert_new_def)
  ultimately show ?thesis
    using is_duplicate_any_status [of ex_db "''CBT1''" 1 "\<lambda>a. ''expired''"]
      is_duplicate_any_status [of ex_db "''CBT1''" 2 "\<lambda>a. ''expired''"]
    by blast
qed

text \<open>
  C2. When the \<open>alerts\<close> table declares the unique constraint on code and location id,
  \<open>store_alert\<close> fails with \<open>DuplicateKey\<close> whenever a row with the warning's code and the
  match's location id exists; the failed call returns no store, so the table is as it
  was. When no such row exists the call succeeds and appends one row.
\<close>

theorem store_alert_duplicate_key:
  assumes "alerts_unique_code_location sch"
  shows "((\<exists>a \<in> set (alerts d). bmkg_alert_code a = c
             \<and> matched_location_id a = Some (loc_id (location m)))
          \<longrightarrow> store_alert sch d w m c = Inl DuplicateKey)
       \<and> (\<not> (\<exists>a \<in> set (alerts d). bmkg_alert_code a = c
               \<and> matched_location_id a = Some (loc_id (location m)))
          \<longrightarrow> (\<exists>i row. store_alert sch d w m c = Inr (i, d\<lparr>alerts := alerts d @ [row]\<rparr>)
                   \<and> bmkg_alert_code row = c
                   \<and> matched_location_id row = Some (loc_id (location m))
                   \<and> status row = ''active''))"
  using assms by (auto simp: store_alert_def insert_alert_def Let_def)

theorem store_alert_duplicate_key_witness:
  "alerts_unique_code_location ex_schema
   \<and> store_alert ex_schema ex_db ex_warning ex_match ''CBT1'' = Inl DuplicateKey"
proof -
  have u: "alerts_unique_code_location ex_schema"
    by (simp add: ex_schema_def)
  have "\<exists>a \<in> set (alerts ex_db). bmkg_alert_code a = ''CBT1''
          \<and> matched_location_id a = Some (loc_id (location ex_match))"
    by (simp add: ex_db_def ex_alert_old_def ex_match_def ex_alian_def)
  with store_alert_duplicate_key [OF u, of ex_db "''CBT1''" ex_match ex_warning] u
  show ?thesis by blast
qed

text \<open>
  C6 as the claim states it: a second call of \<open>mark_expired_alerts\<close> straight after the
  first returns the empty list. Each call reads the clock anew, so this fails as soon as
  an alert expires between the two readings: below, the first call at
  \<open>16:00:00.999999\<close> returns the alert with id 1, and the second call at
  \<open>16:00:01.000005\<close> returns the alert with id 3, whose \<open>expires\<close> lies between the two.
\<close>

theorem mark_expired_alerts_second_call_counterexample:
  "fst (mark_expired_alerts ''2026-02-17T16:00:00.999999+00:00'' ex_db_clock) = [ex_alert_old]
   \<and> fst (mark_expired_alerts ''2026-02-17T16:00:01.000005+00:00''
            (snd (mark_expired_alerts ''2026-02-17T16:00:00.999999+00:00'' ex_db_clock)))
       = [ex_alert_due_later]
   \<and> fst (mark_expired_alerts ''2026-02-17T16:00:01.000005+00:00''
            (snd (mark_expired_alerts ''2026-02-17T16:00:00.999999+00:00'' ex_db_clock)))
       \<noteq> []"
  by (simp add: mark_expired_alerts_def should_expire_def set_expired_def ex_db_clock_def
      ex_db_def ex_alert_old_def ex_alert_due_later_def)

text \<open>
  C6, amended. On a table whose ids are distinct, \<open>mark_expired_alerts\<close> returns exactly
  the rows with status \<open>active\<close>, a non-empty \<open>expires\<close> and \<open>expires < now\<close>, as they were
  before the call, and sets the status of exactly these rows to \<open>expired\<close>. A second call
  straight after it returns exactly the active rows whose \<open>expires\<close> lies between the two
  clock readings (\<open>expires < now2\<close> but not \<open>expires < now\<close>): the empty list when the
  second reading is not later than the first, and never a row that the first call
  returned.
\<close>

theorem mark_expired_alerts_idempotent:
  assumes "distinct (map alert_id (alerts d))"
  shows "fst (mark_expired_alerts now d)
           = filter (\<lambda>a. status a = ''active''
                          \<and> (\<exists>e. alert_expires a = Some e \<and> e \<noteq> [] \<and> e < now)) (alerts d)
       \<and> snd (mark_expired_alerts now d)
           = d\<lparr>alerts := map (\<lambda>a. if status a = ''active''
                                      \<and> (\<exists>e. alert_expires a = Some e \<and> e \<noteq> [] \<and> e < now)
                                   then a\<lparr>status := ''expired''\<rparr> else a) (alerts d)\<rparr>
       \<and> fst (mark_expired_alerts now (snd (mark_expired_alerts now d))) = []
       \<and> (\<forall>now2. now2 \<le> now \<longrightarrow>
             fst (mark_expired_alerts now2 (snd (mark_expired_alerts now d))) = [])
       \<and> (\<forall>now2. alert_id ` set (fst (mark_expired_alerts now2 (snd (mark_expired_alerts now d))))
                    \<inter> alert_id ` set (fst (mark_expired_alerts now d)) = {})
       \<and> (\<forall>now2. fst (mark_expired_alerts now2 (snd (mark_expired_alerts now d)))
                    = filter (\<lambda>a. status a = ''active''
                                   \<and> (\<exists>e. alert_expires a = Some e \<and> e \<noteq> []
                                            \<and> e < now2 \<and> \<not> e < now)) (alerts d))"
proof -
  have cond: "should_expire now = (\<lambda>a. status a = ''active''
                \<and> (\<exists>e. alert_expires a = Some e \<and> e \<noteq> [] \<and> e < now))"
    by (auto simp: should_expire_def fun_eq_iff split: option.splits)
  have 1: "fst (mark_expired_alerts now d) = filter (should_expire now) (alerts d)"
    by (simp add: mark_expired_alerts_eq)
  have "map (expire_ids (alert_id ` {a \<in> set (alerts d). should_expire now a})) (alerts d)
          = map (\<lambda>a. if should_expire now a then a\<lparr>status := ''expired''\<rparr> else a) (alerts d)"
    by (rule map_cong [OF refl]) (rule expire_ids_distinct [OF assms])
  then have 2: "snd (mark_expired_alerts now d)
      = d\<lparr>alerts := map (\<lambda>a. if should_expire now a then a\<lparr>status := ''expired''\<rparr> else a)
                        (alerts d)\<rparr>"
    by (simp add: mark_expired_alerts_eq)
  have 3: "fst (mark_expired_alerts now2 (snd (mark_expired_alerts now d))) = []"
    if "now2 \<le> now" for now2
    using that by (rule mark_expired_second_empty)
  have 4: "alert_id ` set (fst (mark_expired_alerts now2 (snd (mark_expired_alerts now d))))
             \<inter> alert_id ` set (fst (mark_expired_alerts now d)) = {}" for now2
  proof -
    have False
      if a: "a \<in> set (fst (mark_expired_alerts now2 (snd (mark_expired_alerts now d))))"
        and b: "b \<in> set (fst (mark_expired_alerts now d))"
        and eq: "alert_id a = alert_id b" for a b
    proof -
      from a have a': "a \<in> set (alerts (snd (mark_expired_alerts now d)))"
        and act: "status a = ''active''"
        by (auto simp: mark_expired_alerts_eq [of now2] should_expire_def)
      from not_should_expire_after [OF a'] act
      have "a \<in> set (alerts d)" "\<not> should_expire now a" by auto
      moreover from b have "b \<in> set (alerts d)" "should_expire now b"
        by (auto simp: 1)
      moreover from assms have "inj_on alert_id (set (alerts d))"
        by (simp add: distinct_map)
      ultimately show False using eq by (auto dest: inj_onD)
    qed
    then show ?thesis by blast
  qed
  have 5: "fst (mark_expired_alerts now2 (snd (mark_expired_alerts now d)))
             = filter (\<lambda>a. status a = ''active''
                            \<and> (\<exists>e. alert_expires a = Some e \<and> e \<noteq> []
                                     \<and> e < now2 \<and> \<not> e < now)) (alerts d)" for now2
  proof -
    have "(\<lambda>a. should_expire now2 a \<and> \<not> should_expire now a)
            = (\<lambda>a. status a = ''active''
                     \<and> (\<exists>e. alert_expires a = Some e \<and> e \<noteq> [] \<and> e < now2 \<and> \<not> e < now))"
      by (auto simp: should_expire_def fun_eq_iff split: option.splits)
    moreover have "fst (mark_expired_alerts now2 (snd (mark_expired_alerts now d)))
            = filter (\<lambda>a. should_expire now2 a \<and> \<not> should_expire now a) (alerts d)"
      by (simp add: mark_expired_alerts_eq [of now2] 2 filter_after_expire)
    ultimately show ?thesis by simp
  qed
  from 1 2 3 4 5 show ?thesis
    unfolding cond by blast
qed

theorem mark_expired_alerts_idempotent_witness:
  "distinct (map alert_id (alerts ex_db))
   \<and> fst (mark_expired_alerts ''2026-02-17T16:00:00.000000+00:00'' ex_db) = [ex_alert_old]
   \<and> alerts (snd (mark_expired_alerts ''2026-02-17T16:00:00.000000+00:00'' ex_db))
       = [ex_alert_old\<lparr>status := ''expired''\<rparr>, ex_alert_new]
   \<and> fst (mark_expired_alerts ''2026-02-17T16:00:00.000000+00:00''
            (snd (mark_expired_alerts ''2026-02-17T16:00:00.000000+00:00'' ex_db))) = []"
proof -
  have dist: "distinct (map alert_id (alerts ex_db))"
    by (simp add: ex_db_def ex_alert_old_def ex_alert_new_def)
  note inst = mark_expired_alerts_idempotent
                [OF dist, of "''2026-02-17T16:00:00.000000+00:00''"]
  have "fst (mark_expired_alerts ''2026-02-17T16:00:00.000000+00:00'' ex_db) = [ex_alert_old]"
    using inst by (simp add: ex_db_def ex_alert_old_def ex_alert_new_def)
  moreover have "alerts (snd (mark_expired_alerts ''2026-02-17T16:00:00.000000+00:00'' ex_db))
       = [ex_alert_old\<lparr>status := ''expired''\<rparr>, ex_alert_new]"
    using inst by (simp add: ex_db_def ex_alert_old_def ex_alert_new_def)
  ultimately show ?thesis using dist inst by blast
qed

text \<open>
  C7 as the claim states it: a second consecutive call of \<open>expire_trials\<close> returns the
  empty list. \<open>CURRENT_TIMESTAMP\<close> is evaluated by each call, so this fails as soon as a
  trial runs out between the two calls: below, the first call at \<open>16:00:00\<close> returns the
  trial with id 1, and the second call at \<open>16:00:01\<close> returns the trial with id 5, which
  ran out in that second.
\<close>

theorem expire_trials_second_call_counterexample:
  "fst (expire_trials ''2026-02-17 16:00:00'' ex_db_clock) = [ex_trial_due]
   \<and> fst (expire_trials ''2026-02-17 16:00:01''
            (snd (expire_trials ''2026-02-17 16:00:00'' ex_db_clock)))
       = [ex_trial_due_later]
   \<and> fst (expire_trials ''2026-02-17 16:00:01''
            (snd (expire_trials ''2026-02-17 16:00:00'' ex_db_clock)))
       \<noteq> []"
  by (simp add: expire_trials_def trial_due_def Let_def ex_db_clock_def ex_db_def
      ex_trial_due_def ex_trial_due_later_def)

text \<open>
  C7, amended. On a table whose ids are distinct, \<open>expire_trials\<close> returns exactly the
  rows with \<open>expires_at \<le> now\<close> and \<open>expired_notified = 0\<close>, as they were before the call,
  and sets \<open>expired_notified\<close> to 1 on exactly these rows. A second consecutive call
  returns exactly the unnotified rows that ran out between the two clock readings
  (\<open>expires_at \<le> now2\<close> but not \<open>expires_at \<le> now\<close>): the empty list when the second
  reading is not later than the first, and never a trial that the first call returned, so
  a trial is returned for notification at most once.
\<close>

theorem expire_trials_idempotent:
  assumes "distinct (map trial_id (trial_subscriptions d))"
  shows "fst (expire_trials ts d)
           = filter (\<lambda>t. expires_at t \<le> ts \<and> expired_notified t = 0) (trial_subscriptions d)
       \<and> snd (expire_trials ts d)
           = d\<lparr>trial_subscriptions :=
                 map (\<lambda>t. if expires_at t \<le> ts \<and> expired_notified t = 0
                           then t\<lparr>expired_notified := 1\<rparr> else t) (trial_subscriptions d)\<rparr>
       \<and> fst (expire_trials ts (snd (expire_trials ts d))) = []
       \<and> (\<forall>ts2. ts2 \<le> ts \<longrightarrow> fst (expire_trials ts2 (snd (expire_trials ts d))) = [])
       \<and> (\<forall>ts2. trial_id ` set (fst (expire_trials ts2 (snd (expire_trials ts d))))
                    \<inter> trial_id ` set (fst (expire_trials ts d)) = {})
       \<and> (\<forall>ts2. fst (expire_trials ts2 (snd (expire_trials ts d)))
                    = filter (\<lambda>t. expires_at t \<le> ts2 \<and> \<not> expires_at t \<le> ts
                                   \<and> expired_notified t = 0) (trial_subscriptions d))"
proof -
  have cond: "trial_due ts = (\<lambda>t. expires_at t \<le> ts \<and> expired_notified t = 0)"
    by (simp add: trial_due_def fun_eq_iff)
  from assms have inj: "inj_on trial_id (set (trial_subscriptions d))"
    by (simp add: distinct_map)
  have 1: "fst (expire_trials ts d) = filter (trial_due ts) (trial_subscriptions d)"
    by (simp add: expire_trials_eq)
  have "(trial_id t \<in> trial_id ` {u \<in> set (trial_subscriptions d). trial_due ts u})
          = trial_due ts t" if "t \<in> set (trial_subscriptions d)" for t
    using that inj by (auto dest: inj_onD)
  then have "map (\<lambda>t. if trial_id t \<in> trial_id ` {u \<in> set (trial_subscriptions d). trial_due ts u}
                       then t\<lparr>expired_notified := 1\<rparr> else t) (trial_subscriptions d)
               = map (\<lambda>t. if trial_due ts t then t\<lparr>expired_notified := 1\<rparr> else t)
                     (trial_subscriptions d)"
    by (intro map_cong [OF refl]) simp
  then have 2: "snd (expire_trials ts d)
      = d\<lparr>trial_subscriptions :=
            map (\<lambda>t. if trial_due ts t then t\<lparr>expired_notified := 1\<rparr> else t)
                (trial_subscriptions d)\<rparr>"
    by (simp add: expire_trials_eq)
  have 3: "fst (expire_trials ts2 (snd (expire_trials ts d))) = []" if "ts2 \<le> ts" for ts2
    using that by (rule expire_trials_second_empty)
  have 4: "trial_id ` set (fst (expire_trials ts2 (snd (expire_trials ts d))))
             \<inter> trial_id ` set (fst (expire_trials ts d)) = {}" for ts2
  proof -
    have False
      if a: "a \<in> set (fst (expire_trials ts2 (snd (expire_trials ts d))))"
        and b: "b \<in> set (fst (expire_trials ts d))"
        and eq: "trial_id a = trial_id b" for a b
    proof -
      from a have a': "a \<in> set (trial_subscriptions (snd (expire_trials ts d)))"
        and zero: "expired_notified a = 0"
        by (auto simp: expire_trials_eq [of ts2] trial_due_def)
      from trial_after_expire [OF a'] zero
      have "a \<in> set (trial_subscriptions d)" "\<not> trial_due ts a" by auto
      moreover from b have "b \<in> set (trial_subscriptions d)" "trial_due ts b"
        by (auto simp: 1)
      ultimately show False using eq inj by (auto dest: inj_onD)
    qed
    then show ?thesis by blast
  qed
  have 5: "fst (expire_trials ts2 (snd (expire_trials ts d)))
             = filter (\<lambda>t. expires_at t \<le> ts2 \<and> \<not> expires_at t \<le> ts
                            \<and> expired_notified t = 0) (trial_subscriptions d)" for ts2
  proof -
    have "(\<lambda>t. trial_due ts2 t \<and> \<not> trial_due ts t)
            = (\<lambda>t. expires_at t \<le> ts2 \<and> \<not> expires_at t \<le> ts \<and> expired_notified t = 0)"
      by (auto simp: trial_due_def fun_eq_iff)
    moreover have "fst (expire_trials ts2 (snd (expire_trials ts d)))
            = filter (\<lambda>t. trial_due ts2 t \<and> \<not> trial_due ts t) (trial_subscriptions d)"
      by (simp add: expire_trials_eq [of ts2] 2 filter_after_notify)
    ultimately show ?thesis by simp
  qed
  from 1 2 3 4 5 show ?thesis
    unfolding cond by blast
qed

theorem expire_trials_idempotent_witness:
  "distinct (map trial_id (trial_subscriptions ex_db))
   \<and> fst (expire_trials ''2026-02-17 16:00:00'' ex_db) = [ex_trial_due]
   \<and> trial_subscriptions (snd (expire_trials ''2026-02-17 16:00:00'' ex_db))
       = [ex_trial_due\<lparr>expired_notified := 1\<rparr>, ex_trial_running]
   \<and> fst (expire_trials ''2026-02-17 16:00:00''
            (snd (expire_trials ''2026-02-17 16:00:00'' ex_db))) = []"
proof -
  have dist: "distinct (map trial_id (trial_subscriptions ex_db))"
    by (simp add: ex_db_def ex_trial_due_def ex_trial_running_def)
  note inst = expire_trials_idempotent [OF dist, of "''2026-02-17 16:00:00''"]
  have "fst (expire_trials ''2026-02-17 16:00:00'' ex_db) = [ex_trial_due]"
    using inst by (simp add: ex_db_def ex_trial_due_def ex_trial_running_def)
  moreover have "trial_subscriptions (snd (expire_trials ''2026-02-17 16:00:00'' ex_db))
       = [ex_trial_due\<lparr>expired_notified := 1\<rparr>, ex_trial_running]"
    using inst by (simp add: ex_db_def ex_trial_due_def ex_trial_running_def)
  ultimately show ?thesis using dist inst by blast
qed

section \<open>Properties of the dispatcher\<close>

lemmas py_int_defs =
  py_int_def strip_def is_space_def parse_nat_def digit_value_def hour_field_def

lemma is_quiet_hours_iff:
  "is_quiet_hours d now sev \<longleftrightarrow>
     get_config_value d ''quiet_hours_enabled'' ''false'' = ''true''
     \<and> \<not> (get_config_value d ''quiet_hours_override_severe'' ''true'' = ''true''
            \<and> (sev = ''Severe'' \<or> sev = ''Extreme''))
     \<and> (\<exists>s e. py_int (hour_field (get_config_value d ''quiet_hours_start'' ''22:00'')) = Some s
              \<and> py_int (hour_field (get_config_value d ''quiet_hours_end'' ''06:00'')) = Some e
              \<and> (let h = (now + 7) mod 24
                  in (s \<le> e \<and> s \<le> h \<and> h < e) \<or> (e < s \<and> (s \<le> h \<or> h < e))))"
  unfolding is_quiet_hours_def Let_def
  by (cases "py_int (hour_field (get_config_value d ''quiet_hours_start'' ''22:00''))";
      cases "py_int (hour_field (get_config_value d ''quiet_hours_end'' ''06:00''))")
     auto

text \<open>The value of \<open>success\<close> and of \<open>error_msg\<close> after the \<open>try\<close> block of \<open>send\<close>.\<close>

lemma send_quiet:
  assumes "is_quiet_hours d now (severity w)"
  shows "send net now d a_id w m chan =
           (False, log_delivery d a_id (case channel_id chan of None \<Rightarrow> 0 | Some i \<Rightarrow> i)
                     ''skipped_quiet_hours'' [])"
  using assms by (simp add: send_def Let_def)

lemma send_not_quiet:
  assumes "\<not> is_quiet_hours d now (severity w)"
  shows "send net now d a_id w m chan =
           (route_success net w m chan,
            log_delivery d a_id (case channel_id chan of None \<Rightarrow> 0 | Some i \<Rightarrow> i)
              (if route_success net w m chan then ''sent'' else ''failed'')
              (route_error net w m chan))"
  using assms
  by (simp add: send_def Let_def route_success_def route_error_def
      split: option.splits sender_outcome.splits)

lemma send_alerts: "alerts (snd (send net now d a_id w m chan)) = alerts d"
  by (cases "is_quiet_hours d now (severity w)")
     (simp_all add: send_quiet send_not_quiet log_delivery_def)

text \<open>
  C5. Whatever path a call of \<open>send\<close> takes (quiet hours, unknown channel type, a sender
  that returns true or false, a sender that raises), the store it leaves is the store it
  found with exactly one row appended to \<open>alert_deliveries\<close>, and that row carries the
  alert id and the channel id of the call.
\<close>

theorem send_logs_one_delivery:
  "\<exists>st msg.
     snd (send net now d a_id w m chan)
       = d\<lparr>alert_deliveries := alert_deliveries d @
            [\<lparr>delivery_alert_id = a_id,
              delivery_channel_id = (case channel_id chan of None \<Rightarrow> 0 | Some i \<Rightarrow> i),
              delivery_status = st, error_message = msg\<rparr>]\<rparr>
     \<and> (st = ''skipped_quiet_hours'' \<or> st = ''sent'' \<or> st = ''failed'')
     \<and> (fst (send net now d a_id w m chan) \<longleftrightarrow> st = ''sent'')"
proof (cases "is_quiet_hours d now (severity w)")
  case True
  show ?thesis
    by (rule exI [of _ "''skipped_quiet_hours''"], rule exI [of _ "[]"])
       (simp add: send_quiet [OF True] log_delivery_def)
next
  case False
  show ?thesis
    by (rule exI [of _ "if route_success net w m chan then ''sent'' else ''failed''"],
        rule exI [of _ "route_error net w m chan"])
       (simp add: send_not_quiet [OF False] log_delivery_def)
qed

theorem send_logs_one_delivery_witness:
  "alert_deliveries (snd (send (\<lambda>k w m c. Raises ''boom'') 3 ex_db 5 ex_warning ex_match
                            ex_channel))
     = [\<lparr>delivery_alert_id = 5, delivery_channel_id = 7, delivery_status = ''failed'',
         error_message = ''boom''\<rparr>]
   \<and> length (alert_deliveries
        (snd (send (\<lambda>k w m c. Returns True) 3 ex_db 5 ex_warning ex_match ex_channel)))
       = length (alert_deliveries ex_db) + 1"
proof -
  from send_logs_one_delivery
    [of "\<lambda>k w m c. Returns True" 3 ex_db 5 ex_warning ex_match ex_channel]
  obtain st msg where
    "snd (send (\<lambda>k w m c. Returns True) 3 ex_db 5 ex_warning ex_match ex_channel)
       = ex_db\<lparr>alert_deliveries := alert_deliveries ex_db @
            [\<lparr>delivery_alert_id = 5,
              delivery_channel_id = (case channel_id ex_channel of None \<Rightarrow> 0 | Some i \<Rightarrow> i),
              delivery_status = st, error_message = msg\<rparr>]\<rparr>"
    by blast
  then have "length (alert_deliveries
        (snd (send (\<lambda>k w m c. Returns True) 3 ex_db 5 ex_warning ex_match ex_channel)))
       = length (alert_deliveries ex_db) + 1"
    by simp
  moreover have
    "alert_deliveries (snd (send (\<lambda>k w m c. Raises ''boom'') 3 ex_db 5 ex_warning ex_match
                              ex_channel))
       = [\<lparr>delivery_alert_id = 5, delivery_channel_id = 7, delivery_status = ''failed'',
           error_message = ''boom''\<rparr>]"
    by (simp add: send_def is_quiet_hours_def get_config_value_def ex_db_def ex_warning_def
        ex_channel_def sender_map_def log_delivery_def py_int_defs)
  ultimately show ?thesis by simp
qed

text \<open>
  C4. \<open>send\<close> appends a delivery row with status \<open>skipped_quiet_hours\<close> and returns false
  exactly when \<open>quiet_hours_enabled\<close> is \<open>"true"\<close>, the override for severe warnings does
  not apply, the hour fields of \<open>quiet_hours_start\<close> and \<open>quiet_hours_end\<close> parse to
  \<open>s\<close> and \<open>e\<close>, and the local hour \<open>h = (UTC hour + 7) mod 24\<close> lies in \<open>[s, e)\<close>, taken
  as \<open>s \<le> h \<or> h < e\<close> when \<open>s > e\<close>.
\<close>

theorem send_quiet_hours_iff:
  "(snd (send net now d a_id w m chan)
      = d\<lparr>alert_deliveries := alert_deliveries d @
           [\<lparr>delivery_alert_id = a_id,
             delivery_channel_id = (case channel_id chan of None \<Rightarrow> 0 | Some i \<Rightarrow> i),
             delivery_status = ''skipped_quiet_hours'', error_message = []\<rparr>]\<rparr>
    \<and> \<not> fst (send net now d a_id w m chan))
   \<longleftrightarrow>
   (get_config_value d ''quiet_hours_enabled'' ''false'' = ''true''
    \<and> \<not> (get_config_value d ''quiet_hours_override_severe'' ''true'' = ''true''
           \<and> (severity w = ''Severe'' \<or> severity w = ''Extreme''))
    \<and> (\<exists>s e. py_int (hour_field (get_config_value d ''quiet_hours_start'' ''22:00'')) = Some s
             \<and> py_int (hour_field (get_config_value d ''quiet_hours_end'' ''06:00'')) = Some e
             \<and> (let h = (now + 7) mod 24
                 in (s \<le> e \<and> s \<le> h \<and> h < e) \<or> (e < s \<and> (s \<le> h \<or> h < e)))))"
proof (cases "is_quiet_hours d now (severity w)")
  case True
  then show ?thesis
    unfolding is_quiet_hours_iff [symmetric]
    by (simp add: send_quiet log_delivery_def)
next
  case False
  have "d\<lparr>alert_deliveries := alert_deliveries d @ [r]\<rparr>
          = d\<lparr>alert_deliveries := alert_deliveries d @ [r']\<rparr> \<Longrightarrow> r = r'" for r r'
    by (drule arg_cong [where f = alert_deliveries]) simp
  with False show ?thesis
    unfolding is_quiet_hours_iff [symmetric]
    by (auto simp: send_not_quiet log_delivery_def)
qed

theorem send_quiet_hours_iff_witness:
  "alert_deliveries (snd (send (\<lambda>k w m c. Returns True) 16 ex_db 5 ex_warning ex_match
                            ex_channel))
     = [\<lparr>delivery_alert_id = 5, delivery_channel_id = 7,
         delivery_status = ''skipped_quiet_hours'', error_message = []\<rparr>]
   \<and> \<not> fst (send (\<lambda>k w m c. Returns True) 16 ex_db 5 ex_warning ex_match ex_channel)
   \<and> fst (send (\<lambda>k w m c. Returns True) 16 ex_db 5 (ex_warning\<lparr>severity := ''Severe''\<rparr>)
            ex_match ex_channel)"
proof -
  have cfg: "get_config_value ex_db ''quiet_hours_enabled'' ''false'' = ''true''"
    "get_config_value ex_db ''quiet_hours_override_severe'' ''true'' = ''true''"
    "py_int (hour_field (get_config_value ex_db ''quiet_hours_start'' ''22:00'')) = Some 22"
    "py_int (hour_field (get_config_value ex_db ''quiet_hours_end'' ''06:00'')) = Some 6"
    by (simp_all add: get_config_value_def ex_db_def py_int_defs)
  have sev: "severity ex_warning = ''Moderate''"
    by (simp add: ex_warning_def)
  have "snd (send (\<lambda>k w m c. Returns True) 16 ex_db 5 ex_warning ex_match ex_channel)
          = ex_db\<lparr>alert_deliveries := alert_deliveries ex_db @
              [\<lparr>delivery_alert_id = 5,
                delivery_channel_id = (case channel_id ex_channel of None \<Rightarrow> 0 | Some i \<Rightarrow> i),
                delivery_status = ''skipped_quiet_hours'', error_message = []\<rparr>]\<rparr>
        \<and> \<not> fst (send (\<lambda>k w m c. Returns True) 16 ex_db 5 ex_warning ex_match ex_channel)"
    unfolding send_quiet_hours_iff by (simp add: cfg sev)
  moreover have "alert_deliveries ex_db = []" "channel_id ex_channel = Some 7"
    by (simp_all add: ex_db_def ex_channel_def)
  moreover have
    "fst (send (\<lambda>k w m c. Returns True) 16 ex_db 5 (ex_warning\<lparr>severity := ''Severe''\<rparr>)
           ex_match ex_channel)"
    by (simp add: send_def is_quiet_hours_def cfg(1,2) ex_channel_def sender_map_def)
  ultimately show ?thesis by simp
qed

text \<open>
  C10. When the hour field of \<open>quiet_hours_start\<close> or of \<open>quiet_hours_end\<close> does not parse
  as an integer, \<open>_is_quiet_hours\<close> returns false whatever the other settings are, and
  \<open>send\<close> goes on to the channel sender: it returns what the sender achieved and logs
  \<open>sent\<close> or \<open>failed\<close>, never \<open>skipped_quiet_hours\<close>.
\<close>

theorem malformed_quiet_hours_not_quiet:
  assumes "py_int (hour_field (get_config_value d ''quiet_hours_start'' ''22:00'')) = None
           \<or> py_int (hour_field (get_config_value d ''quiet_hours_end'' ''06:00'')) = None"
  shows "\<not> is_quiet_hours d now (severity w)
       \<and> send net now d a_id w m chan =
           (route_success net w m chan,
            log_delivery d a_id (case channel_id chan of None \<Rightarrow> 0 | Some i \<Rightarrow> i)
              (if route_success net w m chan then ''sent'' else ''failed'')
              (route_error net w m chan))"
proof -
  from assms have "\<not> is_quiet_hours d now (severity w)"
    by (auto simp: is_quiet_hours_iff)
  then show ?thesis by (simp add: send_not_quiet)
qed

theorem malformed_quiet_hours_not_quiet_witness:
  "get_config_value ex_db_malformed ''quiet_hours_enabled'' ''false'' = ''true''
   \<and> severity ex_warning = ''Moderate''
   \<and> py_int (hour_field (get_config_value ex_db_malformed ''quiet_hours_start'' ''22:00'')) = None
   \<and> is_quiet_hours ex_db 16 (severity ex_warning)
   \<and> \<not> is_quiet_hours ex_db_malformed 16 (severity ex_warning)
   \<and> send (\<lambda>k w m c. Returns True) 16 ex_db_malformed 5 ex_warning ex_match ex_channel
       = (True, ex_db_malformed\<lparr>alert_deliveries :=
            [\<lparr>delivery_alert_id = 5, delivery_channel_id = 7, delivery_status = ''sent'',
              error_message = []\<rparr>]\<rparr>)"
proof -
  have bad: "py_int (hour_field (get_config_value ex_db_malformed ''quiet_hours_start''
                ''22:00'')) = None"
    by (simp add: get_config_value_def ex_db_malformed_def ex_db_def py_int_defs)
  have en: "get_config_value ex_db_malformed ''quiet_hours_enabled'' ''false'' = ''true''"
    by (simp add: get_config_value_def ex_db_malformed_def ex_db_def)
  have q: "is_quiet_hours ex_db 16 (severity ex_warning)"
    by (simp add: is_quiet_hours_def get_config_value_def ex_db_def ex_warning_def py_int_defs)
  have r: "route_success (\<lambda>k w m c. Returns True) ex_warning ex_match ex_channel"
    "route_error (\<lambda>k w m c. Returns True) ex_warning ex_match ex_channel = []"
    by (simp_all add: route_success_def route_error_def ex_channel_def sender_map_def)
  have "alert_deliveries ex_db_malformed = []" "channel_id ex_channel = Some 7"
    by (simp_all add: ex_db_malformed_def ex_db_def ex_channel_def)
  with malformed_quiet_hours_not_quiet [of ex_db_malformed 16 ex_warning
      "\<lambda>k w m c. Returns True" 5 ex_match ex_channel] bad en q r
  show ?thesis by (simp add: log_delivery_def ex_warning_def)
qed

section \<open>Properties of the engine\<close>

lemma dedup_ok_Nil: "dedup_ok []"
  by (simp add: dedup_ok_def)

lemma dedup_ok_snoc:
  assumes "dedup_ok as"
    and "\<not> (\<exists>a \<in> set as. bmkg_alert_code a = bmkg_alert_code row
              \<and> matched_location_id a = matched_location_id row)"
  shows "dedup_ok (as @ [row])"
  unfolding dedup_ok_def
proof (intro allI)
  fix c l
  let ?P = "\<lambda>a. bmkg_alert_code a = c \<and> matched_location_id a = Some l"
  show "length (filter ?P (as @ [row])) \<le> 1"
  proof (cases "?P row")
    case True
    with assms(2) have "\<forall>a \<in> set as. \<not> ?P a" by auto
    then have "filter ?P as = []" by (simp add: filter_empty_conv)
    with True show ?thesis by simp
  next
    case False
    then have "filter ?P (as @ [row]) = filter ?P as" by simp
    moreover from assms(1) have "length (filter ?P as) \<le> 1"
      unfolding dedup_ok_def by blast
    ultimately show ?thesis by simp
  qed
qed

lemma dedup_ok_map:
  assumes "dedup_ok as"
    and "\<And>a. bmkg_alert_code (f a) = bmkg_alert_code a"
    and "\<And>a. matched_location_id (f a) = matched_location_id a"
  shows "dedup_ok (map f as)"
  using assms by (simp add: dedup_ok_def filter_map o_def)

lemma store_alert_fresh:
  assumes "\<not> is_duplicate d c (loc_id (location m))"
    and "store_alert sch d w m c = Inr (i, d')"
    and "dedup_ok (alerts d)"
  shows "dedup_ok (alerts d')"
proof -
  from assms(2) obtain row where d': "alerts d' = alerts d @ [row]"
    and row: "bmkg_alert_code row = c" "matched_location_id row = Some (loc_id (location m))"
    by (auto simp: store_alert_def insert_alert_def Let_def split: if_splits)
  from assms(1) row
  have "\<not> (\<exists>a \<in> set (alerts d). bmkg_alert_code a = bmkg_alert_code row
              \<and> matched_location_id a = matched_location_id row)"
    by (simp add: is_duplicate_iff)
  with assms(3) show ?thesis
    unfolding d' by (rule dedup_ok_snoc)
qed

lemma for_channels_alerts:
  "alerts (snd (for_channels e a_id w m chans (s, d))) = alerts d"
proof (induction chans arbitrary: s d)
  case Nil
  show ?case by simp
next
  case (Cons chan chans)
  obtain ok d' where sd: "send (senders e) (utc_hour e) d a_id w m chan = (ok, d')"
    by (cases "send (senders e) (utc_hour e) d a_id w m chan")
  then have "alerts d' = alerts d"
    using send_alerts [of "senders e" "utc_hour e" d a_id w m chan] by simp
  with sd Cons.IH show ?case by simp
qed

lemma for_matches_dedup:
  assumes "dedup_ok (alerts d)"
  shows "dedup_ok (alerts (snd (snd (for_matches sch e chans c w ms (s, d)))))"
  using assms
proof (induction ms arbitrary: s d)
  case Nil
  then show ?case by simp
next
  case (Cons m ms)
  show ?case
  proof (cases "is_duplicate d c (loc_id (location m))")
    case True
    with Cons show ?thesis by simp
  next
    case False
    show ?thesis
    proof (cases "store_alert sch d w m c")
      case (Inl err)
      with False Cons.prems show ?thesis by simp
    next
      case (Inr r)
      obtain i d' where r: "r = (i, d')" by (cases r)
      obtain s2 d2 where fc:
        "for_channels e i w m chans (s\<lparr>new_alerts := new_alerts s + 1\<rparr>, d') = (s2, d2)"
        by (cases "for_channels e i w m chans (s\<lparr>new_alerts := new_alerts s + 1\<rparr>, d')")
      have "dedup_ok (alerts d')"
        using False Inr Cons.prems unfolding r by (rule store_alert_fresh)
      moreover have "alerts d2 = alerts d'"
        using for_channels_alerts [of e i w m chans "s\<lparr>new_alerts := new_alerts s + 1\<rparr>" d'] fc
        by simp
      ultimately have "dedup_ok (alerts d2)" by simp
      then have "dedup_ok (alerts (snd (snd (for_matches sch e chans c w ms (s2, d2)))))"
        by (rule Cons.IH)
      with False Inr r fc show ?thesis by simp
    qed
  qed
qed

lemma for_warnings_dedup:
  assumes "dedup_ok (alerts d)"
  shows "dedup_ok (alerts (snd (snd (for_warnings sch e locs chans c ws (s, d)))))"
  using assms
proof (induction ws arbitrary: s d)
  case Nil
  then show ?case by simp
next
  case (Cons w ws)
  show ?case
  proof (cases "is_expired w")
    case True
    with Cons show ?thesis by simp
  next
    case False
    let ?s = "s\<lparr>matches_found := matches_found s + length (match_locations w locs)\<rparr>"
    obtain r s2 d2 where fm:
      "for_matches sch e chans c w (match_locations w locs) (?s, d) = (r, s2, d2)"
      by (cases "for_matches sch e chans c w (match_locations w locs) (?s, d)")
    have d2: "dedup_ok (alerts d2)"
      using for_matches_dedup [OF Cons.prems, of sch e chans c w "match_locations w locs" ?s] fm
      by simp
    show ?thesis
    proof (cases r)
      case None
      with False fm Cons.IH [OF d2] show ?thesis by (simp add: Let_def)
    next
      case (Some err)
      with False fm d2 show ?thesis by (simp add: Let_def)
    qed
  qed
qed

lemma for_items_dedup:
  assumes "dedup_ok (alerts d)"
  shows "dedup_ok (alerts (snd (for_items sch e locs chans items (s, d))))"
  using assms
proof (induction items arbitrary: s d)
  case Nil
  then show ?case by simp
next
  case (Cons item items)
  show ?case
  proof (cases "get_nowcast_detail e (code item)")
    case (Inl msg)
    with Cons show ?thesis by simp
  next
    case (Inr ws)
    let ?s = "s\<lparr>details_fetched := details_fetched s + 1\<rparr>"
    obtain r s2 d2 where fw:
      "for_warnings sch e locs chans (code item) ws (?s, d) = (r, s2, d2)"
      by (cases "for_warnings sch e locs chans (code item) ws (?s, d)")
    have d2: "dedup_ok (alerts d2)"
      using for_warnings_dedup [OF Cons.prems, of sch e locs chans "code item" ws ?s] fw
      by simp
    show ?thesis
    proof (cases r)
      case None
      with Inr fw Cons.IH [OF d2] show ?thesis by simp
    next
      case (Some err)
      with Inr fw Cons.IH [OF d2] show ?thesis by simp
    qed
  qed
qed

lemma mark_expired_alerts_dedup:
  assumes "dedup_ok (alerts d)"
  shows "dedup_ok (alerts (snd (mark_expired_alerts now d)))"
proof -
  have "dedup_ok (map (expire_ids ids) (alerts d))" for ids
    using assms by (rule dedup_ok_map) (simp_all add: expire_ids_def)
  then show ?thesis by (simp add: mark_expired_alerts_eq)
qed

lemma expire_trials_alerts: "alerts (snd (expire_trials ts d)) = alerts d"
  by (simp add: expire_trials_eq)

lemma log_activity_alerts: "alerts (log_activity d ev) = alerts d"
  by (simp add: log_activity_def)

lemma run_poll_cycle_dedup:
  assumes "dedup_ok (alerts d)"
  shows "dedup_ok (alerts (snd (run_poll_cycle sch e d)))"
proof (cases "get_nowcast_list e")
  case (Inl msg)
  with assms show ?thesis by (simp add: run_poll_cycle_def log_activity_alerts)
next
  case (Inr data)
  let ?s0 = "empty_summary\<lparr>warnings_fetched := length data\<rparr>"
  let ?locs = "get_enabled_locations d"
  let ?chans = "get_enabled_channels d"
  show ?thesis
  proof (cases "data = [] \<or> ?locs = []")
    case True
    with Inr assms show ?thesis
      by (auto simp: run_poll_cycle_def Let_def log_activity_alerts)
  next
    case False
    obtain s1 d1 where fi: "for_items sch e ?locs ?chans data (?s0, d) = (s1, d1)"
      by (cases "for_items sch e ?locs ?chans data (?s0, d)")
    obtain expired d2 where me: "mark_expired_alerts (now_utc e) d1 = (expired, d2)"
      by (cases "mark_expired_alerts (now_utc e) d1")
    obtain expired_trials d3 where et: "expire_trials (current_timestamp e) d2 = (expired_trials, d3)"
      by (cases "expire_trials (current_timestamp e) d2")
    have "dedup_ok (alerts d1)"
      using for_items_dedup [OF assms, of sch e ?locs ?chans data ?s0] fi by simp
    then have d2: "dedup_ok (alerts d2)"
      using mark_expired_alerts_dedup [of d1 "now_utc e"] me by simp
    then have d3: "dedup_ok (alerts d3)"
      using expire_trials_alerts [of "current_timestamp e" d2] et by simp
    from False Inr fi me et d2 d3 show ?thesis
      by (cases "process_trials e")
         (simp_all add: run_poll_cycle_def Let_def log_activity_alerts)
  qed
qed

text \<open>
  C1. In every store that the engine can leave behind (poll cycles run one after the
  other from an empty \<open>alerts\<close> table, whatever the upstream client, the senders and the
  clock do, with or without the unique constraint in the schema), each pair of
  \<open>bmkg_alert_code\<close> and \<open>matched_location_id\<close> occurs in at most one row of \<open>alerts\<close>.
\<close>

theorem reachable_dedup:
  assumes "reachable sch d"
  shows "\<forall>c l. length (filter (\<lambda>a. bmkg_alert_code a = c \<and> matched_location_id a = Some l)
                         (alerts d)) \<le> 1"
proof -
  from assms have "dedup_ok (alerts d)"
  proof (induction rule: reachable.induct)
    case (initial d)
    then show ?case by (simp add: dedup_ok_Nil)
  next
    case (cycle d e)
    then show ?case by (simp add: run_poll_cycle_dedup)
  next
    case (admin d d')
    then show ?case by simp
  qed
  then show ?thesis by (simp add: dedup_ok_def)
qed

lemmas cycle_defs =
  run_poll_cycle_def get_enabled_locations_def get_enabled_channels_def
  match_locations_def word_boundary_match_def lower_def lower_char_def
  is_duplicate_def store_alert_def insert_alert_def next_rowid_def
  send_def is_quiet_hours_def get_config_value_def sender_map_def log_delivery_def
  mark_expired_alerts_def should_expire_def set_expired_def
  expire_trials_def trial_due_def log_activity_def empty_summary_def

lemmas ex_defs =
  ex_env_def ex_db_empty_def ex_db_def ex_schema_plain_def ex_warning_def ex_alian_def
  ex_channel_def ex_trial_due_def ex_trial_running_def ex_alert_old_def

text \<open>
  One cycle on an empty \<open>alerts\<close> table, where the upstream detail lists the same warning
  twice: the first match is stored and dispatched, the second is skipped as a duplicate.
\<close>

lemma ex_cycle:
  "run_poll_cycle ex_schema_plain ex_env ex_db_empty =
     (empty_summary\<lparr>warnings_fetched := 1, details_fetched := 1, matches_found := 2,
        new_alerts := 1, duplicates_skipped := 1, notifications_sent := 1\<rparr>,
      ex_db_empty\<lparr>
        alerts := [ex_alert_old\<lparr>alert_expires := Some ''2026-02-17T23:00:00+07:00'',
                     polygon_data := [\<lparr>name = ''Kebumen'', polygon = []\<rparr>]\<rparr>],
        alert_deliveries := [\<lparr>delivery_alert_id = 1, delivery_channel_id = 7,
                               delivery_status = ''sent'', error_message = []\<rparr>],
        activity_log := [''poll_completed'']\<rparr>)"
  by (simp add: cycle_defs ex_defs Let_def)

theorem reachable_dedup_witness:
  "reachable ex_schema_plain (snd (run_poll_cycle ex_schema_plain ex_env ex_db_empty))
   \<and> duplicates_skipped (fst (run_poll_cycle ex_schema_plain ex_env ex_db_empty)) = 1
   \<and> length (filter (\<lambda>a. bmkg_alert_code a = ''CBT1'' \<and> matched_location_id a = Some 1)
        (alerts (snd (run_poll_cycle ex_schema_plain ex_env ex_db_empty)))) = 1"
proof -
  have "alerts ex_db_empty = []"
    by (simp add: ex_db_empty_def)
  then have "reachable ex_schema_plain ex_db_empty"
    by (rule reachable.initial)
  then have reach:
    "reachable ex_schema_plain (snd (run_poll_cycle ex_schema_plain ex_env ex_db_empty))"
    by (rule reachable.cycle)
  from reachable_dedup [OF reach]
  have "length (filter (\<lambda>a. bmkg_alert_code a = ''CBT1'' \<and> matched_location_id a = Some 1)
          (alerts (snd (run_poll_cycle ex_schema_plain ex_env ex_db_empty)))) \<le> 1"
    by blast
  moreover have
    "length (filter (\<lambda>a. bmkg_alert_code a = ''CBT1'' \<and> matched_location_id a = Some 1)
       (alerts (snd (run_poll_cycle ex_schema_plain ex_env ex_db_empty)))) \<ge> 1"
    by (simp add: ex_cycle ex_alert_old_def)
  moreover have "duplicates_skipped (fst (run_poll_cycle ex_schema_plain ex_env ex_db_empty)) = 1"
    by (simp add: ex_cycle)
  ultimately show ?thesis using reach by simp
qed

end
